theory Spec2Isabelle
  imports Main
begin

section \<open>CatalogIdentityClient: data model\<close>

text \<open>
  The embedding follows \<^verbatim>\<open>plugins/auth-backend/src/lib/catalog/CatalogIdentityClient.ts\<close>.
  JavaScript strings are modelled as \<^typ>\<open>string\<close>; letters outside ASCII are left
  alone by the lower-casing below, so the model speaks about ASCII identifiers.
\<close>

type_synonym token = string

text \<open>\<^verbatim>\<open>EntityName\<close>: the three required fields of a parsed reference.\<close>

record EntityName =
  kind :: string
  namespace :: string
  name :: string

text \<open>An entity relation: \<^verbatim>\<open>{ type, target }\<close>.\<close>

record EntityRelation =
  rel_type :: string
  target :: EntityName

text \<open>
  The part of a catalog entity the client reads: its kind, \<^verbatim>\<open>metadata.namespace\<close>
  (optional), \<^verbatim>\<open>metadata.name\<close> and the optional list \<^verbatim>\<open>relations\<close>.
\<close>

record Entity =
  entity_kind :: string
  metadata_namespace :: "string option"
  metadata_name :: string
  relations :: "EntityRelation list option"

text \<open>
  A JavaScript object with string values (\<^verbatim>\<open>Record<string, string>\<close>) is an association
  list in property order. The catalog filter is one such object (\<^verbatim>\<open>findUser\<close>) or an
  array of them (\<^verbatim>\<open>resolveCatalogMembership\<close>).
\<close>

type_synonym js_record = "(string \<times> string) list"

datatype entity_filter = FilterOne js_record | FilterAny "js_record list"

text \<open>
  Errors are values. \<^verbatim>\<open>NotFoundError\<close> and \<^verbatim>\<open>ConflictError\<close> carry their message;
  \<open>Fault\<close> is whatever else a collaborator throws.
\<close>

datatype error = NotFoundError string | ConflictError string | Fault string

text \<open>
  The two collaborators. Each operation calls \<^verbatim>\<open>getToken\<close> at most once and
  \<^verbatim>\<open>getEntities\<close> at most once, so the outcome of a call is a function of its
  arguments.
\<close>

record collaborators =
  getToken :: "error + token"
  getEntities :: "entity_filter \<Rightarrow> token \<Rightarrow> error + Entity list"

text \<open>What an operation does besides returning: the calls it makes and the messages it logs.\<close>

datatype event =
    GetToken
  | GetEntities entity_filter token
  | LogWarn string
  | LogDebug string

record UserQuery =
  annotations :: js_record

text \<open>\<open>logger\<close> tells whether the optional logger was passed.\<close>

record MemberClaimQuery =
  entityRefs :: "string list"
  logger :: bool

section \<open>JavaScript library functions\<close>

definition upper_letters :: string where
  "upper_letters = ''ABCDEFGHIJKLMNOPQRSTUVWXYZ''"

definition lower_letters :: string where
  "lower_letters = ''abcdefghijklmnopqrstuvwxyz''"

definition toLowerChar :: "char \<Rightarrow> char" where
  "toLowerChar c =
     (case map_of (zip upper_letters lower_letters) c of Some d \<Rightarrow> d | None \<Rightarrow> c)"

text \<open>\<^verbatim>\<open>String.prototype.toLocaleLowerCase('en-US')\<close> on ASCII text.\<close>

definition toLocaleLowerCase :: "string \<Rightarrow> string" where
  "toLocaleLowerCase s = map toLowerChar s"

text \<open>\<^verbatim>\<open>Array.prototype.join()\<close> with its default separator, the comma.\<close>

fun join :: "string list \<Rightarrow> string" where
  "join [] = []"
| "join [x] = x"
| "join (x # y # ys) = x @ '','' @ join (y # ys)"

text \<open>Assignment \<^verbatim>\<open>obj[k] = v\<close>: an existing property keeps its place, a new one is appended.\<close>

fun obj_set :: "js_record \<Rightarrow> string \<Rightarrow> string \<Rightarrow> js_record" where
  "obj_set [] k v = [(k, v)]"
| "obj_set ((k', v') # kvs) k v =
     (if k' = k then (k, v) # kvs else (k', v') # obj_set kvs k v)"

text \<open>
  \<^verbatim>\<open>[...new Set(xs)]\<close>: the elements are added one by one, an element already present
  is skipped, and the set iterates in insertion order.
\<close>

definition js_set_add :: "'a list \<Rightarrow> 'a \<Rightarrow> 'a list" where
  "js_set_add s x = (if x \<in> set s then s else s @ [x])"

definition js_new_set :: "'a list \<Rightarrow> 'a list" where
  "js_new_set xs = foldl js_set_add [] xs"

section \<open>Entity references\<close>

text \<open>
  Modelled from the spec: the constant \<^verbatim>\<open>RELATION_MEMBER_OF\<close> of
  \<^verbatim>\<open>@backstage/catalog-model\<close> is not among the sources; the spec gives its value as
  "memberOf".
\<close>

definition RELATION_MEMBER_OF :: string where
  "RELATION_MEMBER_OF = ''memberOf''"

text \<open>The first occurrence of \<open>c\<close> splits a string into what is before and what is after it.\<close>

fun split_first :: "char \<Rightarrow> string \<Rightarrow> (string \<times> string) option" where
  "split_first c [] = None"
| "split_first c (x # xs) =
     (if x = c then Some ([], xs)
      else (case split_first c xs of None \<Rightarrow> None | Some (a, b) \<Rightarrow> Some (x # a, b)))"

text \<open>
  Modelled from the spec: the segments of \<^verbatim>\<open>parseEntityRef\<close>'s grammar. A segment (kind,
  namespace or name) is not empty and holds neither separator; the spec's malformed
  example \<^verbatim>\<open>not a valid ref\<close> has no separator at all, so a space is not part of a segment
  either.
\<close>

definition segment_ok :: "string \<Rightarrow> bool" where
  "segment_ok s \<longleftrightarrow>
     s \<noteq> [] \<and> CHR '':'' \<notin> set s \<and> CHR ''/'' \<notin> set s \<and> CHR '' '' \<notin> set s"

text \<open>
  Modelled from the spec: \<^verbatim>\<open>parseEntityRef\<close> of \<^verbatim>\<open>@backstage/catalog-model\<close> is not
  among the sources. The spec gives the grammar \<^verbatim>\<open>[kind:][namespace/]name\<close>, parsed
  against a default kind and a default namespace used when those segments are absent,
  failing explicitly on an empty name or malformed separators; its examples of malformed
  text are the empty string, \<^verbatim>\<open>::/\<close> and \<^verbatim>\<open>not a valid ref\<close>. \<open>None\<close> is the thrown
  error.
\<close>

definition parseEntityRef :: "string \<Rightarrow> string \<Rightarrow> string \<Rightarrow> EntityName option" where
  "parseEntityRef ref defaultKind defaultNamespace =
     (let (k, rest) = (case split_first CHR '':'' ref of
                         None \<Rightarrow> (None, ref)
                       | Some (a, b) \<Rightarrow> (Some a, b));
          (ns, nm) = (case split_first CHR ''/'' rest of
                         None \<Rightarrow> (None, rest)
                       | Some (a, b) \<Rightarrow> (Some a, b))
      in if (case k of None \<Rightarrow> True | Some a \<Rightarrow> segment_ok a) \<and>
            (case ns of None \<Rightarrow> True | Some a \<Rightarrow> segment_ok a) \<and>
            segment_ok nm
         then Some \<lparr>kind = (case k of None \<Rightarrow> defaultKind | Some a \<Rightarrow> a),
                    namespace = (case ns of None \<Rightarrow> defaultNamespace | Some a \<Rightarrow> a),
                    name = nm\<rparr>
         else None)"

text \<open>
  Modelled from the spec: \<^verbatim>\<open>stringifyEntityRef\<close> of \<^verbatim>\<open>@backstage/catalog-model\<close> is not
  among the sources. The spec gives the canonical form as the lower-cased, fully
  qualified string \<^verbatim>\<open>kind:namespace/name\<close>.
\<close>

definition stringifyEntityRef :: "EntityName \<Rightarrow> string" where
  "stringifyEntityRef r =
     toLocaleLowerCase (kind r) @ '':'' @ toLocaleLowerCase (namespace r) @ ''/'' @
     toLocaleLowerCase (name r)"

text \<open>
  Modelled from the spec: a catalog entity is identified by the reference made of its
  kind, \<^verbatim>\<open>metadata.namespace\<close> (\<^verbatim>\<open>default\<close> when omitted) and \<^verbatim>\<open>metadata.name\<close>.
\<close>

definition entity_name_of :: "Entity \<Rightarrow> EntityName" where
  "entity_name_of e =
     \<lparr>kind = entity_kind e,
      namespace = (case metadata_namespace e of None \<Rightarrow> ''default'' | Some n \<Rightarrow> n),
      name = metadata_name e\<rparr>"

text \<open>
  Modelled from the spec: \<^verbatim>\<open>stringifyEntityRef\<close> applied to an entity (line 113) is the
  canonical form of the reference that identifies it.
\<close>

definition stringifyEntity :: "Entity \<Rightarrow> string" where
  "stringifyEntity e = stringifyEntityRef (entity_name_of e)"

text \<open>
  Lines 90 to 93: a raw reference is lower-cased, then parsed against the defaults
  \<^verbatim>\<open>user\<close> and \<^verbatim>\<open>default\<close>.
\<close>

definition normalizeRef :: "string \<Rightarrow> EntityName option" where
  "normalizeRef ref = parseEntityRef (toLocaleLowerCase ref) ''user'' ''default''"

section \<open>findUser\<close>

text \<open>
  Lines 56 to 61: the filter starts as \<^verbatim>\<open>{ kind: 'user' }\<close> and receives one property
  per entry of \<^verbatim>\<open>Object.entries(query.annotations)\<close>.
\<close>

definition findUser_filter :: "js_record \<Rightarrow> js_record" where
  "findUser_filter anns =
     foldl (\<lambda>flt (key, val). obj_set flt (''metadata.annotations.'' @ key) val)
       [(''kind'', ''user'')] anns"

text \<open>
  Lines 64 to 75. A collaborator that throws ends the call with its error; the trace
  lists the calls made up to there.
\<close>

definition findUser :: "collaborators \<Rightarrow> UserQuery \<Rightarrow> (error + Entity) \<times> event list" where
  "findUser env query =
     (let flt = findUser_filter (annotations query) in
      case getToken env of
        Inl err \<Rightarrow> (Inl err, [GetToken])
      | Inr tok \<Rightarrow>
          (case getEntities env (FilterOne flt) tok of
             Inl err \<Rightarrow> (Inl err, [GetToken, GetEntities (FilterOne flt) tok])
           | Inr items \<Rightarrow>
               (if length items \<noteq> 1
                then (if length items > 1
                      then Inl (ConflictError ''User lookup resulted in multiple matches'')
                      else Inl (NotFoundError ''User not found''))
                else Inr (items ! 0),
                [GetToken, GetEntities (FilterOne flt) tok])))"

text \<open>The catalog queries of a trace, in order.\<close>

fun catalog_queries :: "event list \<Rightarrow> (entity_filter \<times> token) list" where
  "catalog_queries [] = []"
| "catalog_queries (GetEntities flt tok # es) = (flt, tok) # catalog_queries es"
| "catalog_queries (e # es) = catalog_queries es"

fun warnings :: "event list \<Rightarrow> string list" where
  "warnings [] = []"
| "warnings (LogWarn m # es) = m # warnings es"
| "warnings (e # es) = warnings es"

fun debug_messages :: "event list \<Rightarrow> string list" where
  "debug_messages [] = []"
| "debug_messages (LogDebug m # es) = m # debug_messages es"
| "debug_messages (e # es) = debug_messages es"

section \<open>resolveCatalogMembership\<close>

text \<open>\<^verbatim>\<open>logger?.warn(m)\<close> and \<^verbatim>\<open>logger?.debug(m)\<close>: nothing happens without a logger.\<close>

definition log_event :: "bool \<Rightarrow> event \<Rightarrow> event list" where
  "log_event lg e = (if lg then [e] else [])"

text \<open>The text of the warning of line 96.\<close>

definition parse_warning :: "string \<Rightarrow> string" where
  "parse_warning ref = ''Failed to parse entityRef from '' @ ref @ '', ignoring''"

text \<open>
  Lines 88 to 99, the function mapped over \<^verbatim>\<open>entityRefs\<close>: the parsed reference, or
  \<^verbatim>\<open>null\<close> and a warning when \<^verbatim>\<open>parseEntityRef\<close> throws.
\<close>

definition tryParse :: "bool \<Rightarrow> string \<Rightarrow> EntityName option \<times> event list" where
  "tryParse lg ref =
     (case normalizeRef ref of
        Some parsedRef \<Rightarrow> (Some parsedRef, [])
      | None \<Rightarrow>
          (None, log_event lg (LogWarn (parse_warning ref))))"

text \<open>Line 100: the \<^verbatim>\<open>null\<close> entries are filtered out.\<close>

definition resolvedEntityRefs :: "bool \<Rightarrow> string list \<Rightarrow> EntityName list" where
  "resolvedEntityRefs lg refs = List.map_filter fst (map (tryParse lg) refs)"

text \<open>The warnings logged on the way, in the order of the input.\<close>

definition parse_trace :: "bool \<Rightarrow> string list \<Rightarrow> event list" where
  "parse_trace lg refs = concat (map snd (map (tryParse lg) refs))"

text \<open>Lines 102 to 106: one exact-match object per parsed reference.\<close>

definition membership_filter :: "EntityName list \<Rightarrow> js_record list" where
  "membership_filter resolved =
     map (\<lambda>ref. [(''kind'', kind ref),
                  (''metadata.namespace'', namespace ref),
                  (''metadata.name'', name ref)]) resolved"

text \<open>Lines 120 to 125: the targets of the \<^verbatim>\<open>memberOf\<close> relations of the entities returned.\<close>

definition memberOf :: "Entity list \<Rightarrow> EntityName list" where
  "memberOf entities =
     concat (map (\<lambda>e. case relations e of
                         None \<Rightarrow> []
                       | Some rs \<Rightarrow> map target (filter (\<lambda>r. rel_type r = RELATION_MEMBER_OF) rs))
                 entities)"

text \<open>Lines 112 to 118: the diagnostic about entities that were not found.\<close>

definition missing_diagnostic :: "bool \<Rightarrow> string list \<Rightarrow> EntityName list \<Rightarrow> Entity list \<Rightarrow> event list" where
  "missing_diagnostic lg refs resolved entities =
     (if length refs \<noteq> length entities
      then (let foundEntityNames = map stringifyEntity entities;
                missingEntityNames =
                  filter (\<lambda>s. s \<notin> set foundEntityNames) (map stringifyEntityRef resolved)
            in log_event lg (LogDebug (''Entities not found for refs '' @ join missingEntityNames)))
      else [])"

definition resolveCatalogMembership ::
  "collaborators \<Rightarrow> MemberClaimQuery \<Rightarrow> (error + string list) \<times> event list" where
  "resolveCatalogMembership env query =
     (let refs = entityRefs query;
          lg = logger query;
          resolved = resolvedEntityRefs lg refs;
          flt = FilterAny (membership_filter resolved);
          tr0 = parse_trace lg refs
      in case getToken env of
           Inl err \<Rightarrow> (Inl err, tr0 @ [GetToken])
         | Inr tok \<Rightarrow>
             (case getEntities env flt tok of
                Inl err \<Rightarrow> (Inl err, tr0 @ [GetToken, GetEntities flt tok])
              | Inr entities \<Rightarrow>
                  (let newEntityRefs =
                         js_new_set (map stringifyEntityRef (resolved @ memberOf entities))
                   in (Inr newEntityRefs,
                       tr0 @ [GetToken, GetEntities flt tok] @
                       missing_diagnostic lg refs resolved entities @
                       log_event lg (LogDebug (''Found catalog membership: '' @ join newEntityRefs))))))"

section \<open>The specification's vocabulary\<close>

text \<open>
  Deduplication as the specification words it: every element stays at its first
  occurrence and its later occurrences are removed.
\<close>

primrec first_occurrences :: "'a list \<Rightarrow> 'a list" where
  "first_occurrences [] = []"
| "first_occurrences (x # xs) = x # filter (\<lambda>y. y \<noteq> x) (first_occurrences xs)"

text \<open>The successfully parsed input references, in the order of the input.\<close>

definition spec_parsed_inputs :: "string list \<Rightarrow> EntityName list" where
  "spec_parsed_inputs refs =
     concat (map (\<lambda>raw. case normalizeRef raw of None \<Rightarrow> [] | Some r \<Rightarrow> [r]) refs)"

text \<open>
  The targets of the relations of type "memberOf" of the entities returned: one hop, the
  targets' own relations are never read.
\<close>

definition spec_membership_targets :: "Entity list \<Rightarrow> EntityName list" where
  "spec_membership_targets entities =
     [target r. e \<leftarrow> entities,
                r \<leftarrow> (case relations e of None \<Rightarrow> [] | Some rs \<Rightarrow> rs),
                rel_type r = ''memberOf'']"

definition spec_membership :: "string list \<Rightarrow> Entity list \<Rightarrow> string list" where
  "spec_membership refs entities =
     first_occurrences
       (map stringifyEntityRef (spec_parsed_inputs refs) @
        map stringifyEntityRef (spec_membership_targets entities))"

text \<open>
  A string in canonical form is lower-cased and fully qualified: a kind, a colon, and
  after it a namespace and a name around a slash.
\<close>

definition canonical_form :: "string \<Rightarrow> bool" where
  "canonical_form s \<longleftrightarrow>
     toLocaleLowerCase s = s \<and>
     (case split_first CHR '':'' s of
        None \<Rightarrow> False
      | Some (k, rest) \<Rightarrow> CHR ''/'' \<in> set rest)"

text \<open>
  The missing-entity diagnostic: the canonical strings of the parsed references that are
  not among the canonical strings of the entities returned.
\<close>

definition missing_entities_message :: "EntityName list \<Rightarrow> Entity list \<Rightarrow> string" where
  "missing_entities_message parsed entities =
     ''Entities not found for refs '' @
     join [s \<leftarrow> map stringifyEntityRef parsed. s \<notin> set (map stringifyEntity entities)]"

section \<open>A small catalog for concrete runs\<close>

definition admins_ref :: EntityName where
  "admins_ref = \<lparr>kind = ''group'', namespace = ''default'', name = ''admins''\<rparr>"

definition alice_entity :: Entity where
  "alice_entity =
     \<lparr>entity_kind = ''User'', metadata_namespace = Some ''default'', metadata_name = ''alice'',
      relations = Some [\<lparr>rel_type = ''memberOf'', target = admins_ref\<rparr>]\<rparr>"

definition bob_entity :: Entity where
  "bob_entity =
     \<lparr>entity_kind = ''User'', metadata_namespace = None, metadata_name = ''bob'',
      relations = None\<rparr>"

definition alice_filter :: js_record where
  "alice_filter =
     [(''kind'', ''user''), (''metadata.namespace'', ''default''), (''metadata.name'', ''alice'')]"

definition email_filter :: "string \<Rightarrow> js_record" where
  "email_filter addr = [(''kind'', ''user''), (''metadata.annotations.email'', addr)]"

text \<open>
  The catalog holds Alice and Bob. Alice alone has the address \<^verbatim>\<open>a@example.com\<close>, both
  have \<^verbatim>\<open>team@example.com\<close>. A filter list without alternatives restricts nothing.
\<close>

definition demo_getEntities :: "entity_filter \<Rightarrow> token \<Rightarrow> error + Entity list" where
  "demo_getEntities flt tok =
     (case flt of
        FilterOne f \<Rightarrow>
          (if f = email_filter ''a@example.com'' then Inr [alice_entity]
           else if f = email_filter ''team@example.com'' then Inr [alice_entity, bob_entity]
           else Inr [])
      | FilterAny fs \<Rightarrow>
          (if fs = [] then Inr [alice_entity, bob_entity]
           else Inr (if alice_filter \<in> set fs then [alice_entity] else [])))"

definition demo_env :: collaborators where
  "demo_env = \<lparr>getToken = Inr ''service-token'', getEntities = demo_getEntities\<rparr>"

text \<open>Raw references as an identity provider may send them: mixed case, one malformed, one repeated.\<close>

definition demo_refs :: "string list" where
  "demo_refs = [''User:Default/Alice'', ''::/'', ''group:default/admins'', ''ALICE'']"

section \<open>Properties\<close>

lemma toLowerChar_idem: "toLowerChar (toLowerChar c) = toLowerChar c"
  by (simp add: toLowerChar_def upper_letters_def lower_letters_def)

lemma toLocaleLowerCase_idem: "toLocaleLowerCase (toLocaleLowerCase s) = toLocaleLowerCase s"
  by (simp add: toLocaleLowerCase_def toLowerChar_idem)

lemma toLocaleLowerCase_append:
  "toLocaleLowerCase (a @ b) = toLocaleLowerCase a @ toLocaleLowerCase b"
  by (simp add: toLocaleLowerCase_def)

lemma toLowerChar_sep:
  "toLowerChar c = CHR '':'' \<longleftrightarrow> c = CHR '':''"
  "toLowerChar c = CHR ''/'' \<longleftrightarrow> c = CHR ''/''"
  "toLowerChar c = CHR '' '' \<longleftrightarrow> c = CHR '' ''"
  by (simp_all add: toLowerChar_def upper_letters_def lower_letters_def)

lemma toLocaleLowerCase_Cons:
  "toLocaleLowerCase (c # s) = toLowerChar c # toLocaleLowerCase s"
  by (simp add: toLocaleLowerCase_def)

lemma toLowerChar_fixed:
  "toLowerChar CHR '':'' = CHR '':''" "toLowerChar CHR ''/'' = CHR ''/''"
  by (simp_all add: toLowerChar_def upper_letters_def lower_letters_def)

lemma lower_fixed_append:
  "toLocaleLowerCase (a @ b) = a @ b \<longleftrightarrow> toLocaleLowerCase a = a \<and> toLocaleLowerCase b = b"
  by (simp add: toLocaleLowerCase_def)

lemma lower_fixed_Cons:
  "toLocaleLowerCase (c # b) = c # b \<longleftrightarrow> toLowerChar c = c \<and> toLocaleLowerCase b = b"
  by (simp add: toLocaleLowerCase_def)

lemma split_first_None: "split_first c s = None \<longleftrightarrow> c \<notin> set s"
  by (induction s) (auto split: option.splits)

lemma split_first_Some: "split_first c s = Some (a, b) \<Longrightarrow> s = a @ c # b \<and> c \<notin> set a"
  by (induction s arbitrary: a) (auto split: option.splits if_splits)

lemma split_first_append: "c \<notin> set a \<Longrightarrow> split_first c (a @ c # b) = Some (a, b)"
  by (induction a) auto

lemma lower_defaults: "toLocaleLowerCase ''user'' = ''user''" "toLocaleLowerCase ''default'' = ''default''"
  by (simp_all add: toLocaleLowerCase_def toLowerChar_def upper_letters_def lower_letters_def)

lemma segment_defaults: "segment_ok ''user''" "segment_ok ''default''"
  by (simp_all add: segment_ok_def)

lemma parse_canonical:
  "segment_ok k \<Longrightarrow> segment_ok ns \<Longrightarrow> segment_ok nm \<Longrightarrow>
   parseEntityRef (k @ '':'' @ ns @ ''/'' @ nm) dk dn = Some \<lparr>kind = k, namespace = ns, name = nm\<rparr>"
  using split_first_append [of "CHR '':''" k "ns @ ''/'' @ nm"]
        split_first_append [of "CHR ''/''" ns nm]
  by (simp add: parseEntityRef_def segment_ok_def)

lemma parse_fields:
  assumes "parseEntityRef t dk dn = Some r" "toLocaleLowerCase t = t"
    "segment_ok dk" "segment_ok dn" "toLocaleLowerCase dk = dk" "toLocaleLowerCase dn = dn"
  shows "segment_ok (kind r) \<and> segment_ok (namespace r) \<and> segment_ok (name r) \<and>
         toLocaleLowerCase (kind r) = kind r \<and> toLocaleLowerCase (namespace r) = namespace r \<and>
         toLocaleLowerCase (name r) = name r"
  using assms
  by (auto simp: parseEntityRef_def split: option.splits if_splits prod.splits
      simp: lower_fixed_append lower_fixed_Cons dest!: split_first_Some)

text \<open>
  Claim C5. Normalization is idempotent: when a raw reference normalizes to a reference
  \<open>r\<close>, normalizing the canonical string form of \<open>r\<close> gives \<open>r\<close> again.
\<close>

theorem normalization_idempotent:
  "normalizeRef s = Some r \<Longrightarrow> normalizeRef (stringifyEntityRef r) = Some r"
proof -
  assume a: "normalizeRef s = Some r"
  have f: "segment_ok (kind r) \<and> segment_ok (namespace r) \<and> segment_ok (name r) \<and>
         toLocaleLowerCase (kind r) = kind r \<and> toLocaleLowerCase (namespace r) = namespace r \<and>
         toLocaleLowerCase (name r) = name r"
    using a parse_fields [of "toLocaleLowerCase s" "''user''" "''default''" r]
    by (simp add: normalizeRef_def toLocaleLowerCase_idem lower_defaults segment_defaults)
  then have s: "stringifyEntityRef r = kind r @ '':'' @ namespace r @ ''/'' @ name r"
    by (simp add: stringifyEntityRef_def)
  have "toLocaleLowerCase (stringifyEntityRef r) = stringifyEntityRef r"
    by (simp add: stringifyEntityRef_def toLocaleLowerCase_append toLocaleLowerCase_idem
        toLocaleLowerCase_Cons toLowerChar_fixed)
  then show ?thesis
    using f parse_canonical [of "kind r" "namespace r" "name r" "''user''" "''default''"]
    by (simp add: normalizeRef_def s)
qed

text \<open>
  Claim C4. Normalization ignores case and fills in the defaults: the two spellings of the
  admins group normalize to the same reference, \<^verbatim>\<open>alice\<close> normalizes to the user Alice of the
  default namespace, whose canonical form is \<^verbatim>\<open>user:default/alice\<close>, and lower-casing a raw
  reference beforehand never changes what it normalizes to.
\<close>

theorem normalization_case_insensitive_defaults:
  "normalizeRef ''Group:Default/Admins'' = normalizeRef ''group:default/admins'' \<and>
  normalizeRef ''group:default/admins'' = Some \<lparr>kind = ''group'', namespace = ''default'', name = ''admins''\<rparr> \<and>
  normalizeRef ''alice'' = Some \<lparr>kind = ''user'', namespace = ''default'', name = ''alice''\<rparr> \<and>
  map_option stringifyEntityRef (normalizeRef ''alice'') = Some ''user:default/alice'' \<and>
  (\<forall>s. normalizeRef (toLocaleLowerCase s) = normalizeRef s)"
proof -
  have "\<forall>s. normalizeRef (toLocaleLowerCase s) = normalizeRef s"
    by (simp add: normalizeRef_def toLocaleLowerCase_idem)
  moreover have "normalizeRef ''Group:Default/Admins'' = Some \<lparr>kind = ''group'', namespace = ''default'', name = ''admins''\<rparr>"
    by (simp add: normalizeRef_def parseEntityRef_def toLocaleLowerCase_def segment_ok_def
     toLowerChar_def upper_letters_def lower_letters_def)
  moreover have "normalizeRef ''group:default/admins'' = Some \<lparr>kind = ''group'', namespace = ''default'', name = ''admins''\<rparr>"
    by (simp add: normalizeRef_def parseEntityRef_def toLocaleLowerCase_def segment_ok_def
     toLowerChar_def upper_letters_def lower_letters_def)
  moreover have "normalizeRef ''alice'' = Some \<lparr>kind = ''user'', namespace = ''default'', name = ''alice''\<rparr>"
    by (simp add: normalizeRef_def parseEntityRef_def toLocaleLowerCase_def segment_ok_def
     toLowerChar_def upper_letters_def lower_letters_def)
  moreover have "stringifyEntityRef \<lparr>kind = ''user'', namespace = ''default'', name = ''alice''\<rparr> = ''user:default/alice''"
    by (simp add: toLocaleLowerCase_def 
     toLowerChar_def upper_letters_def lower_letters_def stringifyEntityRef_def)
  ultimately show ?thesis by simp
qed

theorem normalization_idempotent_witness:
  "normalizeRef ''Group:Default/Admins'' = Some admins_ref \<and>
   normalizeRef (stringifyEntityRef admins_ref) = Some admins_ref"
proof -
  have h: "normalizeRef ''Group:Default/Admins'' = Some admins_ref"
    by (simp add: normalizeRef_def parseEntityRef_def segment_ok_def toLocaleLowerCase_def
        toLowerChar_def upper_letters_def lower_letters_def admins_ref_def)
  from normalization_idempotent [OF h] h show ?thesis by simp
qed

lemma tryParse_fst: "fst (tryParse lg ref) = normalizeRef ref"
  by (simp add: tryParse_def split: option.splits)

lemma resolved_spec: "resolvedEntityRefs lg refs = spec_parsed_inputs refs"
  by (induction refs)
     (simp_all add: resolvedEntityRefs_def spec_parsed_inputs_def List.map_filter_simps
        tryParse_fst split: option.splits)

lemma memberOf_spec: "memberOf entities = spec_membership_targets entities"
proof -
  have inner: "map target (filter (\<lambda>r. rel_type r = ''memberOf'') rs) =
      concat (map (\<lambda>r. if rel_type r = ''memberOf'' then [target r] else []) rs)" for rs
    by (induction rs) simp_all
  show ?thesis
    by (induction entities)
       (simp_all add: memberOf_def spec_membership_targets_def RELATION_MEMBER_OF_def inner
          split: option.splits)
qed

lemma first_occurrences_filter:
  "filter P (first_occurrences xs) = first_occurrences (filter P xs)"
proof (induction xs)
  case Nil
  show ?case by simp
next
  case (Cons x xs)
  show ?case
  proof (cases "P x")
    case True
    then show ?thesis
      by (auto simp: Cons.IH [symmetric] intro!: filter_cong)
  next
    case False
    then show ?thesis
      by (auto simp: Cons.IH [symmetric] intro!: filter_cong)
  qed
qed

lemma foldl_js_set_add:
  "foldl js_set_add acc xs = acc @ first_occurrences (filter (\<lambda>x. x \<notin> set acc) xs)"
proof (induction xs arbitrary: acc)
  case Nil
  show ?case by simp
next
  case (Cons x xs)
  have step: "foldl js_set_add acc (x # xs) = foldl js_set_add (js_set_add acc x) xs"
    by simp
  show ?case
  proof (cases "x \<in> set acc")
    case True
    then have "js_set_add acc x = acc" by (simp add: js_set_add_def)
    with True show ?thesis unfolding step by (simp add: Cons.IH)
  next
    case False
    then have add: "js_set_add acc x = acc @ [x]" by (simp add: js_set_add_def)
    have "filter (\<lambda>y. y \<notin> set (acc @ [x])) xs = filter (\<lambda>y. y \<noteq> x) (filter (\<lambda>y. y \<notin> set acc) xs)"
      by (auto intro!: filter_cong)
    with False show ?thesis
      unfolding step add Cons.IH by (simp add: first_occurrences_filter)
  qed
qed

lemma js_new_set_spec: "js_new_set xs = first_occurrences xs"
  by (simp add: js_new_set_def foldl_js_set_add)

lemma set_first_occurrences: "set (first_occurrences xs) = set xs"
  by (induction xs) auto

lemma distinct_first_occurrences: "distinct (first_occurrences xs)"
  by (induction xs) (simp_all add: set_first_occurrences)

lemma first_occurrences_append:
  "first_occurrences (xs @ ys) =
     first_occurrences xs @ filter (\<lambda>y. y \<notin> set xs) (first_occurrences ys)"
proof (induction xs)
  case Nil
  show ?case by simp
next
  case (Cons x xs)
  then show ?case by (auto intro!: filter_cong)
qed

lemma catalog_queries_append:
  "catalog_queries (xs @ ys) = catalog_queries xs @ catalog_queries ys"
  by (induction xs rule: catalog_queries.induct) simp_all

lemma warnings_append: "warnings (xs @ ys) = warnings xs @ warnings ys"
  by (induction xs rule: warnings.induct) simp_all

lemma debug_messages_append:
  "debug_messages (xs @ ys) = debug_messages xs @ debug_messages ys"
  by (induction xs rule: debug_messages.induct) simp_all

lemma parse_trace_projections:
  "catalog_queries (parse_trace lg refs) = []"
  "debug_messages (parse_trace lg refs) = []"
  "warnings (parse_trace lg refs) =
     (if lg then map parse_warning (filter (\<lambda>r. normalizeRef r = None) refs) else [])"
  "GetToken \<notin> set (parse_trace lg refs)"
  by (induction refs)
     (auto simp: parse_trace_def tryParse_def log_event_def split: option.splits)

lemma log_debug_projections:
  "catalog_queries (log_event lg (LogDebug m)) = []"
  "warnings (log_event lg (LogDebug m)) = []"
  "debug_messages (log_event lg (LogDebug m)) = (if lg then [m] else [])"
  by (simp_all add: log_event_def)

lemma missing_diagnostic_projections:
  "catalog_queries (missing_diagnostic lg refs resolved entities) = []"
  "warnings (missing_diagnostic lg refs resolved entities) = []"
  by (simp_all add: missing_diagnostic_def log_debug_projections Let_def)

text \<open>The result and the trace of a successful run.\<close>

lemma resolve_success:
  assumes "getToken env = Inr tok"
    and "getEntities env (FilterAny (membership_filter (spec_parsed_inputs (entityRefs q)))) tok = Inr entities"
  shows "resolveCatalogMembership env q =
     (Inr (spec_membership (entityRefs q) entities),
      parse_trace (logger q) (entityRefs q) @
      [GetToken, GetEntities (FilterAny (membership_filter (spec_parsed_inputs (entityRefs q)))) tok] @
      missing_diagnostic (logger q) (entityRefs q) (spec_parsed_inputs (entityRefs q)) entities @
      log_event (logger q)
        (LogDebug (''Found catalog membership: '' @ join (spec_membership (entityRefs q) entities))))"
  using assms
  by (simp add: resolveCatalogMembership_def Let_def resolved_spec memberOf_spec
      js_new_set_spec spec_membership_def)

lemma resolve_result:
  "fst (resolveCatalogMembership env q) =
     (case getToken env of
        Inl err \<Rightarrow> Inl err
      | Inr tok \<Rightarrow>
          (case getEntities env (FilterAny (membership_filter (spec_parsed_inputs (entityRefs q)))) tok of
             Inl err \<Rightarrow> Inl err
           | Inr entities \<Rightarrow> Inr (spec_membership (entityRefs q) entities)))"
  by (simp add: resolveCatalogMembership_def Let_def resolved_spec memberOf_spec
      js_new_set_spec spec_membership_def split: sum.splits)

lemma resolve_queries:
  "catalog_queries (snd (resolveCatalogMembership env q)) =
     (case getToken env of
        Inl err \<Rightarrow> []
      | Inr tok \<Rightarrow> [(FilterAny (membership_filter (spec_parsed_inputs (entityRefs q))), tok)])"
  by (simp add: resolveCatalogMembership_def Let_def resolved_spec catalog_queries_append
      parse_trace_projections log_debug_projections missing_diagnostic_projections
      split: sum.splits)

lemma resolve_warnings:
  "warnings (snd (resolveCatalogMembership env q)) =
     (if logger q then map parse_warning (filter (\<lambda>r. normalizeRef r = None) (entityRefs q))
      else [])"
  by (simp add: resolveCatalogMembership_def Let_def warnings_append
      parse_trace_projections log_debug_projections missing_diagnostic_projections
      split: sum.splits)

lemma spec_parsed_inputs_filter:
  "spec_parsed_inputs (filter (\<lambda>r. normalizeRef r \<noteq> None) refs) = spec_parsed_inputs refs"
  by (induction refs) (auto simp: spec_parsed_inputs_def)

lemmas string_defs =
  toLocaleLowerCase_def toLowerChar_def upper_letters_def lower_letters_def

lemmas parse_defs =
  normalizeRef_def parseEntityRef_def segment_ok_def string_defs

lemma obj_set_fresh: "k \<notin> set (map fst f) \<Longrightarrow> obj_set f k v = f @ [(k, v)]"
  by (induction f k v rule: obj_set.induct) auto

lemma foldl_obj_set_fresh:
  assumes "distinct (map fst anns)"
    and "\<forall>k \<in> set (map fst anns). p @ k \<notin> set (map fst acc)"
  shows "foldl (\<lambda>flt (key, val). obj_set flt (p @ key) val) acc anns =
         acc @ map (\<lambda>(key, val). (p @ key, val)) anns"
  using assms
proof (induction anns arbitrary: acc)
  case Nil
  show ?case by simp
next
  case (Cons a anns)
  obtain k v where a: "a = (k, v)" by (cases a)
  have fresh: "p @ k \<notin> set (map fst acc)"
    using Cons.prems(2) by (simp add: a)
  have d: "distinct (map fst anns)" and k: "k \<notin> set (map fst anns)"
    using Cons.prems(1) by (simp_all add: a)
  have "p @ k' \<notin> set (map fst (acc @ [(p @ k, v)]))" if "k' \<in> set (map fst anns)" for k'
  proof -
    have "k' \<noteq> k" using that k by blast
    moreover have "p @ k' \<notin> set (map fst acc)"
      using that Cons.prems(2) by auto
    ultimately show ?thesis by simp
  qed
  then have "\<forall>k' \<in> set (map fst anns). p @ k' \<notin> set (map fst (acc @ [(p @ k, v)]))"
    by blast
  from Cons.IH [OF d this] show ?case
    by (simp add: a obj_set_fresh [OF fresh])
qed

lemma findUser_queries:
  "catalog_queries (snd (findUser env query)) =
     (case getToken env of
        Inl err \<Rightarrow> []
      | Inr tok \<Rightarrow> [(FilterOne (findUser_filter (annotations query)), tok)])"
  by (simp add: findUser_def Let_def split: sum.splits)

text \<open>
  Claim C1. When the token is obtained and the catalog answers the query of
  \<^verbatim>\<open>findUser\<close> with a list of items: one item is returned as the user, no item fails with
  \<^verbatim>\<open>NotFoundError\<close>, two or more items fail with \<^verbatim>\<open>ConflictError\<close>, and an entity is
  only ever returned when it is the single item of the answer.
\<close>

theorem findUser_cardinality:
  assumes "getToken env = Inr tok"
    and "getEntities env (FilterOne (findUser_filter (annotations query))) tok = Inr items"
  shows "(\<forall>e. items = [e] \<longrightarrow> fst (findUser env query) = Inr e) \<and>
         (items = [] \<longrightarrow> fst (findUser env query) = Inl (NotFoundError ''User not found'')) \<and>
         (2 \<le> length items \<longrightarrow>
            fst (findUser env query) =
              Inl (ConflictError ''User lookup resulted in multiple matches'')) \<and>
         (\<forall>e. fst (findUser env query) = Inr e \<longrightarrow> items = [e])"
proof -
  have one: "length items = 1 \<Longrightarrow> items = [items ! 0]"
    by (cases items) simp_all
  show ?thesis
    using assms one by (auto simp: findUser_def Let_def)
qed

theorem findUser_cardinality_witness:
  "fst (findUser demo_env \<lparr>annotations = [(''email'', ''a@example.com'')]\<rparr>) = Inr alice_entity \<and>
   fst (findUser demo_env \<lparr>annotations = [(''email'', ''x@example.com'')]\<rparr>) =
     Inl (NotFoundError ''User not found'') \<and>
   fst (findUser demo_env \<lparr>annotations = [(''email'', ''team@example.com'')]\<rparr>) =
     Inl (ConflictError ''User lookup resulted in multiple matches'')"
proof -
  have tok: "getToken demo_env = Inr ''service-token''"
    by (simp add: demo_env_def)
  have q1: "getEntities demo_env
      (FilterOne (findUser_filter (annotations \<lparr>annotations = [(''email'', ''a@example.com'')]\<rparr>)))
      ''service-token'' = Inr [alice_entity]"
    by (simp add: demo_env_def demo_getEntities_def email_filter_def findUser_filter_def)
  have q0: "getEntities demo_env
      (FilterOne (findUser_filter (annotations \<lparr>annotations = [(''email'', ''x@example.com'')]\<rparr>)))
      ''service-token'' = Inr []"
    by (simp add: demo_env_def demo_getEntities_def email_filter_def findUser_filter_def)
  have q2: "getEntities demo_env
      (FilterOne (findUser_filter (annotations \<lparr>annotations = [(''email'', ''team@example.com'')]\<rparr>)))
      ''service-token'' = Inr [alice_entity, bob_entity]"
    by (simp add: demo_env_def demo_getEntities_def email_filter_def findUser_filter_def)
  show ?thesis
    using findUser_cardinality [OF tok q1] findUser_cardinality [OF tok q0]
      findUser_cardinality [OF tok q2]
    by simp
qed

text \<open>
  Claim C6. For an annotations object (its keys are distinct), the filter built by
  \<^verbatim>\<open>findUser\<close> is the entry \<^verbatim>\<open>kind = user\<close> followed by one entry
  \<^verbatim>\<open>metadata.annotations.<key> = <value>\<close> per annotation and nothing else, and the catalog
  is queried once, with that filter and the token obtained; when no token is obtained the
  call ends before any query.
\<close>

theorem findUser_filter_single_query:
  assumes "distinct (map fst (annotations query))"
  shows "findUser_filter (annotations query) =
           (''kind'', ''user'') #
           map (\<lambda>(key, val). (''metadata.annotations.'' @ key, val)) (annotations query) \<and>
         catalog_queries (snd (findUser env query)) =
           (case getToken env of
              Inl err \<Rightarrow> []
            | Inr tok \<Rightarrow> [(FilterOne (findUser_filter (annotations query)), tok)])"
proof -
  have "\<forall>k \<in> set (map fst (annotations query)).
          ''metadata.annotations.'' @ k \<notin> set (map fst [(''kind'', ''user'')])"
    by simp
  from foldl_obj_set_fresh [OF assms this] show ?thesis
    by (simp add: findUser_filter_def findUser_queries)
qed

theorem findUser_filter_single_query_witness:
  "distinct (map fst [(''email'', ''a@example.com''), (''login'', ''alice'')]) \<and>
   findUser_filter [(''email'', ''a@example.com''), (''login'', ''alice'')] =
     [(''kind'', ''user''), (''metadata.annotations.email'', ''a@example.com''),
      (''metadata.annotations.login'', ''alice'')] \<and>
   catalog_queries (snd (findUser demo_env
       \<lparr>annotations = [(''email'', ''a@example.com''), (''login'', ''alice'')]\<rparr>)) =
     [(FilterOne [(''kind'', ''user''), (''metadata.annotations.email'', ''a@example.com''),
        (''metadata.annotations.login'', ''alice'')], ''service-token'')]"
proof -
  have d: "distinct (map fst (annotations
      \<lparr>annotations = [(''email'', ''a@example.com''), (''login'', ''alice'')]\<rparr>))"
    by simp
  show ?thesis
    using findUser_filter_single_query [OF d, of demo_env]
    by (simp add: demo_env_def)
qed

lemma first_occurrences_Nil_iff: "first_occurrences xs = [] \<longleftrightarrow> xs = []"
  by (cases xs) simp_all

lemma resolve_debug_messages_no_logger:
  "\<not> logger q \<Longrightarrow> debug_messages (snd (resolveCatalogMembership env q)) = []"
  by (simp add: resolveCatalogMembership_def Let_def debug_messages_append
      parse_trace_projections log_debug_projections missing_diagnostic_def
      split: sum.splits)

lemma resolve_acquires_token: "GetToken \<in> set (snd (resolveCatalogMembership env q))"
  by (simp add: resolveCatalogMembership_def Let_def split: sum.splits)

lemma canonical_stringify: "canonical_form (stringifyEntityRef r)"
proof -
  have low: "toLocaleLowerCase (stringifyEntityRef r) = stringifyEntityRef r"
    by (simp add: stringifyEntityRef_def toLocaleLowerCase_append toLocaleLowerCase_idem
        toLocaleLowerCase_Cons toLowerChar_fixed)
  have shape: "case split_first c (a @ c # b @ d # e) of None \<Rightarrow> False
       | Some (k, rest) \<Rightarrow> d \<in> set rest" for a b e :: string and c d
    by (induction a) (auto split: option.splits)
  show ?thesis
    unfolding canonical_form_def using low shape [where c = "CHR '':''" and d = "CHR ''/''"]
    by (simp add: stringifyEntityRef_def)
qed

lemma resolve_result_expl:
  "fst (resolveCatalogMembership env \<lparr>entityRefs = refs, logger = lg\<rparr>) =
     (case getToken env of
        Inl err \<Rightarrow> Inl err
      | Inr tok \<Rightarrow>
          (case getEntities env (FilterAny (membership_filter (spec_parsed_inputs refs))) tok of
             Inl err \<Rightarrow> Inl err
           | Inr entities \<Rightarrow> Inr (spec_membership refs entities)))"
  using resolve_result [of env "\<lparr>entityRefs = refs, logger = lg\<rparr>"]
  by (simp cong: sum.case_cong)

lemma resolve_queries_expl:
  "catalog_queries (snd (resolveCatalogMembership env \<lparr>entityRefs = refs, logger = lg\<rparr>)) =
     (case getToken env of
        Inl err \<Rightarrow> []
      | Inr tok \<Rightarrow> [(FilterAny (membership_filter (spec_parsed_inputs refs)), tok)])"
  using resolve_queries [of env "\<lparr>entityRefs = refs, logger = lg\<rparr>"]
  by (simp cong: sum.case_cong)

lemma resolve_warnings_expl:
  "warnings (snd (resolveCatalogMembership env \<lparr>entityRefs = refs, logger = lg\<rparr>)) =
     (if lg then map parse_warning (filter (\<lambda>r. normalizeRef r = None) refs) else [])"
  using resolve_warnings [of env "\<lparr>entityRefs = refs, logger = lg\<rparr>"]
  by (simp cong: if_cong)

text \<open>
  Claim C2. When the token is obtained and the catalog answers the batch query with a list
  of entities, \<^verbatim>\<open>resolveCatalogMembership\<close> returns the canonical strings of the parsed
  input references followed by the canonical strings of the targets of the "memberOf"
  relations of those entities (one hop), each string kept at its first occurrence only.
  The result has no duplicates, holds exactly the strings of both groups, and starts with
  the parsed inputs in their original order.
\<close>

theorem resolveCatalogMembership_union:
  assumes "getToken env = Inr tok"
    and "getEntities env
           (FilterAny (membership_filter (resolvedEntityRefs (logger q) (entityRefs q)))) tok =
         Inr entities"
  shows "fst (resolveCatalogMembership env q) = Inr (spec_membership (entityRefs q) entities) \<and>
         distinct (spec_membership (entityRefs q) entities) \<and>
         set (spec_membership (entityRefs q) entities) =
           stringifyEntityRef ` set (spec_parsed_inputs (entityRefs q)) \<union>
           stringifyEntityRef ` set (spec_membership_targets entities) \<and>
         spec_membership (entityRefs q) entities =
           first_occurrences (map stringifyEntityRef (spec_parsed_inputs (entityRefs q))) @
           filter (\<lambda>s. s \<notin> stringifyEntityRef ` set (spec_parsed_inputs (entityRefs q)))
             (first_occurrences (map stringifyEntityRef (spec_membership_targets entities)))"
proof -
  have "fst (resolveCatalogMembership env q) = Inr (spec_membership (entityRefs q) entities)"
    using assms by (simp add: resolve_result resolved_spec)
  moreover have "distinct (spec_membership (entityRefs q) entities)"
    by (simp add: spec_membership_def distinct_first_occurrences)
  moreover have "set (spec_membership (entityRefs q) entities) =
           stringifyEntityRef ` set (spec_parsed_inputs (entityRefs q)) \<union>
           stringifyEntityRef ` set (spec_membership_targets entities)"
    by (simp add: spec_membership_def set_first_occurrences)
  moreover have "spec_membership (entityRefs q) entities =
           first_occurrences (map stringifyEntityRef (spec_parsed_inputs (entityRefs q))) @
           filter (\<lambda>s. s \<notin> stringifyEntityRef ` set (spec_parsed_inputs (entityRefs q)))
             (first_occurrences (map stringifyEntityRef (spec_membership_targets entities)))"
    by (simp add: spec_membership_def first_occurrences_append)
  ultimately show ?thesis by blast
qed

lemma alice_ref: "normalizeRef ''User:Default/Alice'' = Some \<lparr>kind = ''user'', namespace = ''default'', name = ''alice''\<rparr>"
  "normalizeRef ''ALICE'' = Some \<lparr>kind = ''user'', namespace = ''default'', name = ''alice''\<rparr>"
  "normalizeRef ''alice'' = Some \<lparr>kind = ''user'', namespace = ''default'', name = ''alice''\<rparr>"
  "normalizeRef ''group:default/admins'' = Some admins_ref"
  "normalizeRef ''::/'' = None"
  "normalizeRef '''' = None"
  by (simp_all add: parse_defs admins_ref_def)

lemma demo_parsed:
  "spec_parsed_inputs demo_refs =
     [\<lparr>kind = ''user'', namespace = ''default'', name = ''alice''\<rparr>, admins_ref,
      \<lparr>kind = ''user'', namespace = ''default'', name = ''alice''\<rparr>]"
  by (simp add: spec_parsed_inputs_def demo_refs_def alice_ref)

lemma demo_strings:
  "stringifyEntityRef \<lparr>kind = ''user'', namespace = ''default'', name = ''alice''\<rparr> = ''user:default/alice''"
  "stringifyEntityRef admins_ref = ''group:default/admins''"
  by (simp_all add: stringifyEntityRef_def string_defs admins_ref_def)

lemma demo_targets: "spec_membership_targets [alice_entity] = [admins_ref]"
  "spec_membership_targets [alice_entity, bob_entity] = [admins_ref]"
  by (simp_all add: spec_membership_targets_def alice_entity_def bob_entity_def)

lemma demo_query:
  "getEntities demo_env (FilterAny (membership_filter (resolvedEntityRefs lg demo_refs)))
     ''service-token'' = Inr [alice_entity]"
  by (simp add: resolved_spec demo_parsed membership_filter_def demo_env_def
      demo_getEntities_def alice_filter_def admins_ref_def)

theorem resolveCatalogMembership_union_witness:
  "fst (resolveCatalogMembership demo_env \<lparr>entityRefs = demo_refs, logger = True\<rparr>) =
     Inr [''user:default/alice'', ''group:default/admins'']"
proof -
  have tok: "getToken demo_env = Inr ''service-token''"
    by (simp add: demo_env_def)
  have qry: "getEntities demo_env
      (FilterAny (membership_filter
        (resolvedEntityRefs (logger \<lparr>entityRefs = demo_refs, logger = True\<rparr>)
           (entityRefs \<lparr>entityRefs = demo_refs, logger = True\<rparr>))))
      ''service-token'' = Inr [alice_entity]"
    by (simp add: demo_query)
  have "spec_membership demo_refs [alice_entity] = [''user:default/alice'', ''group:default/admins'']"
    by (simp add: spec_membership_def demo_parsed demo_targets demo_strings)
  with resolveCatalogMembership_union [OF tok qry] show ?thesis by simp
qed

text \<open>The debug messages of a run in which both collaborators answer.\<close>

lemma resolve_debug_messages:
  assumes "getToken env = Inr tok"
    and "getEntities env (FilterAny (membership_filter (spec_parsed_inputs (entityRefs q)))) tok =
         Inr entities"
  shows "debug_messages (snd (resolveCatalogMembership env q)) =
     (if logger q
      then (if length (entityRefs q) \<noteq> length entities
            then [missing_entities_message (spec_parsed_inputs (entityRefs q)) entities]
            else []) @
           [''Found catalog membership: '' @ join (spec_membership (entityRefs q) entities)]
      else [])"
  by (simp add: resolve_success [OF assms] debug_messages_append parse_trace_projections
      log_debug_projections missing_diagnostic_def missing_entities_message_def log_event_def)

text \<open>
  What a malformed reference cannot change: the call returns what it returns on the input
  without the malformed entries and sends the same catalog query, it fails only with the
  error of a collaborator, and the warnings logged are one per malformed entry when a
  logger is passed and none otherwise.
\<close>

lemma malformed_refs_result_query_warnings:
  "fst (resolveCatalogMembership env \<lparr>entityRefs = refs, logger = lg\<rparr>) =
     fst (resolveCatalogMembership env
       \<lparr>entityRefs = filter (\<lambda>r. normalizeRef r \<noteq> None) refs, logger = lg\<rparr>) \<and>
   catalog_queries (snd (resolveCatalogMembership env \<lparr>entityRefs = refs, logger = lg\<rparr>)) =
     catalog_queries (snd (resolveCatalogMembership env
       \<lparr>entityRefs = filter (\<lambda>r. normalizeRef r \<noteq> None) refs, logger = lg\<rparr>)) \<and>
   warnings (snd (resolveCatalogMembership env \<lparr>entityRefs = refs, logger = lg\<rparr>)) =
     (if lg then map parse_warning (filter (\<lambda>r. normalizeRef r = None) refs) else []) \<and>
   (fst (resolveCatalogMembership env \<lparr>entityRefs = refs, logger = lg\<rparr>) = Inl err \<longleftrightarrow>
      getToken env = Inl err \<or>
      (\<exists>tok. getToken env = Inr tok \<and>
         getEntities env (FilterAny (membership_filter (spec_parsed_inputs refs))) tok = Inl err))"
proof -
  let ?good = "filter (\<lambda>r. normalizeRef r \<noteq> None) refs"
  have good: "spec_parsed_inputs ?good = spec_parsed_inputs refs"
    by (rule spec_parsed_inputs_filter)
  have "spec_membership ?good entities = spec_membership refs entities" for entities
    by (simp only: spec_membership_def good)
  then have res: "fst (resolveCatalogMembership env \<lparr>entityRefs = refs, logger = lg\<rparr>) =
      fst (resolveCatalogMembership env \<lparr>entityRefs = ?good, logger = lg\<rparr>)"
    by (simp only: resolve_result_expl good)
  have qs: "catalog_queries (snd (resolveCatalogMembership env \<lparr>entityRefs = refs, logger = lg\<rparr>)) =
      catalog_queries (snd (resolveCatalogMembership env \<lparr>entityRefs = ?good, logger = lg\<rparr>))"
    by (simp only: resolve_queries_expl good)
  have fail: "fst (resolveCatalogMembership env \<lparr>entityRefs = refs, logger = lg\<rparr>) = Inl err \<longleftrightarrow>
      getToken env = Inl err \<or>
      (\<exists>tok. getToken env = Inr tok \<and>
         getEntities env (FilterAny (membership_filter (spec_parsed_inputs refs))) tok = Inl err)"
    by (simp add: resolve_result_expl split: sum.splits)
  from res qs fail resolve_warnings_expl [of env refs lg] show ?thesis
    by blast
qed

text \<open>
  Claim C3. A raw reference that fails to parse is to be dropped from all further
  processing, leaving at most a warning. Result, catalog query and warning are as
  claimed, but the entry is still counted by the guard of line 112. Run with a logger on
  \<^verbatim>\<open>alice\<close> and an empty string, against the run on \<^verbatim>\<open>alice\<close> alone: the empty string
  fails to parse, both runs return the same result and send the same query, and the
  first logs one debug message more, the missing-entity diagnostic naming nothing.
\<close>

theorem malformed_ref_reaches_missing_diagnostic:
  "normalizeRef '''' = None \<and>
   fst (resolveCatalogMembership demo_env \<lparr>entityRefs = [''alice'', ''''], logger = True\<rparr>) =
     fst (resolveCatalogMembership demo_env \<lparr>entityRefs = [''alice''], logger = True\<rparr>) \<and>
   catalog_queries (snd (resolveCatalogMembership demo_env
       \<lparr>entityRefs = [''alice'', ''''], logger = True\<rparr>)) =
     catalog_queries (snd (resolveCatalogMembership demo_env
       \<lparr>entityRefs = [''alice''], logger = True\<rparr>)) \<and>
   warnings (snd (resolveCatalogMembership demo_env
       \<lparr>entityRefs = [''alice'', ''''], logger = True\<rparr>)) =
     [''Failed to parse entityRef from , ignoring''] \<and>
   debug_messages (snd (resolveCatalogMembership demo_env
       \<lparr>entityRefs = [''alice'', ''''], logger = True\<rparr>)) =
     [''Entities not found for refs '',
      ''Found catalog membership: user:default/alice,group:default/admins''] \<and>
   debug_messages (snd (resolveCatalogMembership demo_env
       \<lparr>entityRefs = [''alice''], logger = True\<rparr>)) =
     [''Found catalog membership: user:default/alice,group:default/admins'']"
proof -
  have p2: "spec_parsed_inputs [''alice'', ''''] =
      [\<lparr>kind = ''user'', namespace = ''default'', name = ''alice''\<rparr>]"
    and p1: "spec_parsed_inputs [''alice''] =
      [\<lparr>kind = ''user'', namespace = ''default'', name = ''alice''\<rparr>]"
    by (simp_all add: spec_parsed_inputs_def alice_ref)
  have tok: "getToken demo_env = Inr ''service-token''"
    by (simp add: demo_env_def)
  have q2: "getEntities demo_env
      (FilterAny (membership_filter (spec_parsed_inputs
         (entityRefs \<lparr>entityRefs = [''alice'', ''''], logger = True\<rparr>))))
      ''service-token'' = Inr [alice_entity]"
    by (simp add: p2 membership_filter_def demo_env_def demo_getEntities_def alice_filter_def)
  have q1: "getEntities demo_env
      (FilterAny (membership_filter (spec_parsed_inputs
         (entityRefs \<lparr>entityRefs = [''alice''], logger = True\<rparr>))))
      ''service-token'' = Inr [alice_entity]"
    by (simp add: p1 membership_filter_def demo_env_def demo_getEntities_def alice_filter_def)
  have r2: "spec_membership [''alice'', ''''] [alice_entity] =
      [''user:default/alice'', ''group:default/admins'']"
    and r1: "spec_membership [''alice''] [alice_entity] =
      [''user:default/alice'', ''group:default/admins'']"
    by (simp_all add: spec_membership_def p1 p2 demo_targets demo_strings)
  have found: "stringifyEntity alice_entity = ''user:default/alice''"
    by (simp add: stringifyEntity_def entity_name_of_def alice_entity_def
        stringifyEntityRef_def string_defs)
  have missing: "missing_entities_message
      [\<lparr>kind = ''user'', namespace = ''default'', name = ''alice''\<rparr>] [alice_entity] =
      ''Entities not found for refs ''"
    by (simp add: missing_entities_message_def demo_strings found)
  have d2: "debug_messages (snd (resolveCatalogMembership demo_env
       \<lparr>entityRefs = [''alice'', ''''], logger = True\<rparr>)) =
     [''Entities not found for refs '',
      ''Found catalog membership: user:default/alice,group:default/admins'']"
    using resolve_debug_messages [OF tok q2] by (simp add: p2 r2 missing)
  have d1: "debug_messages (snd (resolveCatalogMembership demo_env
       \<lparr>entityRefs = [''alice''], logger = True\<rparr>)) =
     [''Found catalog membership: user:default/alice,group:default/admins'']"
    using resolve_debug_messages [OF tok q1] by (simp add: r1)
  have w: "warnings (snd (resolveCatalogMembership demo_env
       \<lparr>entityRefs = [''alice'', ''''], logger = True\<rparr>)) =
     [''Failed to parse entityRef from , ignoring'']"
    by (simp add: resolve_warnings_expl alice_ref parse_warning_def)
  have f2: "fst (resolveCatalogMembership demo_env
        \<lparr>entityRefs = [''alice'', ''''], logger = True\<rparr>) =
      Inr [''user:default/alice'', ''group:default/admins'']"
    using resolve_success [OF tok q2] by (simp add: r2)
  have f1: "fst (resolveCatalogMembership demo_env \<lparr>entityRefs = [''alice''], logger = True\<rparr>) =
      Inr [''user:default/alice'', ''group:default/admins'']"
    using resolve_success [OF tok q1] by (simp add: r1)
  have c2: "catalog_queries (snd (resolveCatalogMembership demo_env
        \<lparr>entityRefs = [''alice'', ''''], logger = True\<rparr>)) =
      [(FilterAny [alice_filter], ''service-token'')]"
    by (simp add: resolve_queries_expl tok p2 membership_filter_def alice_filter_def)
  have c1: "catalog_queries (snd (resolveCatalogMembership demo_env
        \<lparr>entityRefs = [''alice''], logger = True\<rparr>)) =
      [(FilterAny [alice_filter], ''service-token'')]"
    by (simp add: resolve_queries_expl tok p1 membership_filter_def alice_filter_def)
  from f1 f2 c1 c2 d1 d2 w alice_ref(6) show ?thesis by simp
qed

text \<open>What line 112 decides: the diagnostic is logged when the lengths of the raw input and of the answer differ.\<close>

lemma missing_diagnostic_logged_iff:
  "missing_diagnostic lg refs resolved entities \<noteq> [] \<longleftrightarrow>
     lg \<and> length refs \<noteq> length entities"
  by (simp add: missing_diagnostic_def log_event_def Let_def)

text \<open>
  Claim C7. The missing-entity diagnostic is to be logged exactly when the number of
  entities returned differs from the number of parsed references requested. The guard of
  line 112 reads the length of the raw input instead, while the query (line 102) and the
  list of missing names (line 114) are built from the parsed references. Run with a logger
  on \<^verbatim>\<open>alice\<close> and an empty string: one reference is parsed and requested, the catalog
  returns that one entity, and the diagnostic is logged all the same, naming nothing.
\<close>

theorem missing_diagnostic_counts_raw_refs:
  "length (resolvedEntityRefs True [''alice'', '''']) = 1 \<and>
   getEntities demo_env
     (FilterAny (membership_filter (resolvedEntityRefs True [''alice'', ''''])))
     ''service-token'' = Inr [alice_entity] \<and>
   debug_messages (snd (resolveCatalogMembership demo_env
       \<lparr>entityRefs = [''alice'', ''''], logger = True\<rparr>)) =
     [''Entities not found for refs '',
      ''Found catalog membership: user:default/alice,group:default/admins'']"
proof -
  have parsed: "spec_parsed_inputs [''alice'', ''''] =
      [\<lparr>kind = ''user'', namespace = ''default'', name = ''alice''\<rparr>]"
    by (simp add: spec_parsed_inputs_def alice_ref)
  have tok: "getToken demo_env = Inr ''service-token''"
    by (simp add: demo_env_def)
  have qry: "getEntities demo_env
      (FilterAny (membership_filter (spec_parsed_inputs
         (entityRefs \<lparr>entityRefs = [''alice'', ''''], logger = True\<rparr>))))
      ''service-token'' = Inr [alice_entity]"
    by (simp add: parsed membership_filter_def demo_env_def demo_getEntities_def alice_filter_def)
  have res: "spec_membership [''alice'', ''''] [alice_entity] =
      [''user:default/alice'', ''group:default/admins'']"
    by (simp add: spec_membership_def parsed demo_targets demo_strings)
  have found: "stringifyEntity alice_entity = ''user:default/alice''"
    by (simp add: stringifyEntity_def entity_name_of_def alice_entity_def
        stringifyEntityRef_def string_defs)
  have "debug_messages (snd (resolveCatalogMembership demo_env
       \<lparr>entityRefs = [''alice'', ''''], logger = True\<rparr>)) =
     [''Entities not found for refs '',
      ''Found catalog membership: user:default/alice,group:default/admins'']"
    by (simp add: resolve_success [OF tok qry] debug_messages_append parse_trace_projections
        log_debug_projections missing_diagnostic_def res parsed found demo_strings)
  then show ?thesis
    using qry by (simp add: resolved_spec parsed)
qed

text \<open>
  Claim C8, as stated, fails: on the empty input the catalog is queried, with an empty
  filter list, and the result holds the memberships of whatever it answers.
\<close>

theorem empty_input_queries_catalog:
  "catalog_queries (snd (resolveCatalogMembership demo_env \<lparr>entityRefs = [], logger = False\<rparr>)) =
     [(FilterAny [], ''service-token'')] \<and>
   fst (resolveCatalogMembership demo_env \<lparr>entityRefs = [], logger = False\<rparr>) =
     Inr [''group:default/admins'']"
proof -
  have parsed: "spec_parsed_inputs [] = []"
    by (simp add: spec_parsed_inputs_def)
  have res: "spec_membership [] [alice_entity, bob_entity] = [''group:default/admins'']"
    by (simp add: spec_membership_def parsed demo_targets demo_strings)
  show ?thesis
    by (simp add: resolve_queries resolve_result parsed membership_filter_def demo_env_def
        demo_getEntities_def res)
qed

text \<open>
  Claim C8, amended. When the input is empty or every raw reference fails to parse, and
  both collaborators answer, the call obtains a token, sends one catalog query whose
  filter list is empty, and returns the canonical strings of the "memberOf" targets of the
  entities returned, without duplicates; the result is empty exactly when those entities
  have no such relation.
\<close>

theorem unparsable_input_empty_filter_query:
  assumes "\<forall>r \<in> set (entityRefs q). normalizeRef r = None"
    and "getToken env = Inr tok"
    and "getEntities env (FilterAny []) tok = Inr entities"
  shows "fst (resolveCatalogMembership env q) =
           Inr (first_occurrences (map stringifyEntityRef (spec_membership_targets entities))) \<and>
         catalog_queries (snd (resolveCatalogMembership env q)) = [(FilterAny [], tok)] \<and>
         GetToken \<in> set (snd (resolveCatalogMembership env q)) \<and>
         (fst (resolveCatalogMembership env q) = Inr [] \<longleftrightarrow>
            spec_membership_targets entities = [])"
proof -
  have "spec_parsed_inputs refs = []" if "\<forall>r \<in> set refs. normalizeRef r = None" for refs
    using that by (induction refs) (simp_all add: spec_parsed_inputs_def)
  with assms(1) have parsed: "spec_parsed_inputs (entityRefs q) = []"
    by blast
  show ?thesis
    using assms(2,3)
    by (simp add: resolve_result resolve_queries resolve_acquires_token parsed
        membership_filter_def spec_membership_def first_occurrences_Nil_iff)
qed

theorem unparsable_input_empty_filter_query_witness:
  "fst (resolveCatalogMembership demo_env \<lparr>entityRefs = [''::/'', ''''], logger = True\<rparr>) =
     Inr [''group:default/admins''] \<and>
   catalog_queries (snd (resolveCatalogMembership demo_env
       \<lparr>entityRefs = [''::/'', ''''], logger = True\<rparr>)) = [(FilterAny [], ''service-token'')] \<and>
   GetToken \<in> set (snd (resolveCatalogMembership demo_env
       \<lparr>entityRefs = [''::/'', ''''], logger = True\<rparr>))"
proof -
  have bad: "\<forall>r \<in> set (entityRefs \<lparr>entityRefs = [''::/'', ''''], logger = True\<rparr>).
      normalizeRef r = None"
    by (simp add: alice_ref)
  have tok: "getToken demo_env = Inr ''service-token''"
    by (simp add: demo_env_def)
  have qry: "getEntities demo_env (FilterAny []) ''service-token'' = Inr [alice_entity, bob_entity]"
    by (simp add: demo_env_def demo_getEntities_def)
  from unparsable_input_empty_filter_query [OF bad tok qry] show ?thesis
    by (simp add: demo_targets demo_strings)
qed

text \<open>
  Claim C9. Every string of a returned result is in canonical form: lower-cased and of the
  shape \<^verbatim>\<open>kind:namespace/name\<close>. It is the canonical string of a parsed input reference or
  of a "memberOf" target of an entity the catalog returned, so no raw input that is not
  itself canonical is among the results.
\<close>

theorem membership_result_canonical:
  assumes "fst (resolveCatalogMembership env q) = Inr result"
    and "s \<in> set result"
  shows "canonical_form s \<and>
         (s \<in> stringifyEntityRef ` set (spec_parsed_inputs (entityRefs q)) \<or>
          (\<exists>tok entities.
             getToken env = Inr tok \<and>
             getEntities env (FilterAny (membership_filter (spec_parsed_inputs (entityRefs q)))) tok =
               Inr entities \<and>
             s \<in> stringifyEntityRef ` set (spec_membership_targets entities))) \<and>
         s \<notin> set (filter (\<lambda>raw. \<not> canonical_form raw) (entityRefs q))"
proof -
  obtain tok entities where tok: "getToken env = Inr tok"
    and qry: "getEntities env (FilterAny (membership_filter (spec_parsed_inputs (entityRefs q)))) tok =
      Inr entities"
    and res: "result = spec_membership (entityRefs q) entities"
    using assms(1) by (auto simp: resolve_result split: sum.splits)
  from assms(2) res have mem:
    "s \<in> stringifyEntityRef ` set (spec_parsed_inputs (entityRefs q)) \<or>
     s \<in> stringifyEntityRef ` set (spec_membership_targets entities)"
    by (auto simp: spec_membership_def set_first_occurrences)
  then obtain r where "s = stringifyEntityRef r" by blast
  then have can: "canonical_form s" by (simp add: canonical_stringify)
  from mem tok qry have
    "s \<in> stringifyEntityRef ` set (spec_parsed_inputs (entityRefs q)) \<or>
          (\<exists>tok entities.
             getToken env = Inr tok \<and>
             getEntities env (FilterAny (membership_filter (spec_parsed_inputs (entityRefs q)))) tok =
               Inr entities \<and>
             s \<in> stringifyEntityRef ` set (spec_membership_targets entities))"
    by blast
  with can show ?thesis by simp
qed

theorem membership_result_canonical_witness:
  "fst (resolveCatalogMembership demo_env \<lparr>entityRefs = demo_refs, logger = False\<rparr>) =
     Inr [''user:default/alice'', ''group:default/admins''] \<and>
   canonical_form ''group:default/admins'' \<and>
   ''group:default/admins'' \<notin> set (filter (\<lambda>raw. \<not> canonical_form raw) demo_refs)"
proof -
  have run: "fst (resolveCatalogMembership demo_env \<lparr>entityRefs = demo_refs, logger = False\<rparr>) =
     Inr [''user:default/alice'', ''group:default/admins'']"
    using demo_query [of False]
    by (simp add: resolve_result resolved_spec demo_env_def spec_membership_def demo_parsed
        demo_targets demo_strings)
  have mem: "''group:default/admins'' \<in> set [''user:default/alice'', ''group:default/admins'']"
    by simp
  from membership_result_canonical [OF run mem] run show ?thesis by simp
qed

text \<open>
  Claim C10. For every input and all collaborators, the call returns the same value with
  and without a logger, and sends the same catalog query; without a logger nothing is
  logged.
\<close>

theorem logger_does_not_change_result:
  "fst (resolveCatalogMembership env \<lparr>entityRefs = refs, logger = True\<rparr>) =
     fst (resolveCatalogMembership env \<lparr>entityRefs = refs, logger = False\<rparr>) \<and>
   catalog_queries (snd (resolveCatalogMembership env \<lparr>entityRefs = refs, logger = True\<rparr>)) =
     catalog_queries (snd (resolveCatalogMembership env \<lparr>entityRefs = refs, logger = False\<rparr>)) \<and>
   warnings (snd (resolveCatalogMembership env \<lparr>entityRefs = refs, logger = False\<rparr>)) = [] \<and>
   debug_messages (snd (resolveCatalogMembership env \<lparr>entityRefs = refs, logger = False\<rparr>)) = []"
  by (simp add: resolve_result_expl resolve_queries_expl resolve_warnings_expl
      resolve_debug_messages_no_logger)

end
